theory Spec2Isabelle
  imports Complex_Main "HOL-Library.Word"
begin

section \<open>Noise texture generator: a shallow embedding of \<open>generate_noise_texture.py\<close>\<close>

text \<open>
  The script samples a coherent-noise primitive over a \<open>height \<times> width\<close> grid, rescales
  the samples to \<open>[0, 1]\<close>, quantizes them to bytes and writes a grayscale image.

  Conventions of the embedding:
  \<^item> Python \<open>int\<close> is \<^typ>\<open>int\<close>; Python \<open>float\<close> and NumPy \<open>float64\<close> are \<^typ>\<open>real\<close>
    (rounding, overflow to infinity and NaN are outside the model); \<open>uint8\<close> is
    \<^typ>\<open>8 word\<close>;
  \<^item> a 2D array is a list of rows;
  \<^item> an exception is the \<open>Inl\<close> branch of a sum;
  \<^item> the capabilities the script imports (the noise primitive of the \<open>noise\<close> package,
    NumPy's random source, the operating system's file operations and the image encoder)
    are the fields of an environment record; the random source and the file system are
    threaded through as explicit state.
\<close>

subsection \<open>Exceptions\<close>

datatype error =
    ValueError string
  | ZeroDivisionError string
  | FileNotFoundError
  | FileExistsError
  | NotADirectoryError
  | PermissionError
  | OSError string
  | OtherError string

text \<open>The classes caught by \<open>except OSError\<close>.\<close>

fun is_OSError :: "error \<Rightarrow> bool" where
  "is_OSError FileNotFoundError = True"
| "is_OSError FileExistsError = True"
| "is_OSError NotADirectoryError = True"
| "is_OSError PermissionError = True"
| "is_OSError (OSError m) = True"
| "is_OSError (ValueError m) = False"
| "is_OSError (ZeroDivisionError m) = False"
| "is_OSError (OtherError m) = False"

subsection \<open>Arithmetic of the host language\<close>

text \<open>Python's \<open>a / b\<close> on numbers raises on a zero divisor.\<close>

definition py_truediv :: "real \<Rightarrow> real \<Rightarrow> error + real" where
  "py_truediv a b = (if b = 0 then Inl (ZeroDivisionError ''float division by zero'') else Inr (a / b))"

text \<open>\<open>range(n)\<close> for an integer \<open>n\<close>: empty when \<open>n \<le> 0\<close>.\<close>

definition py_range :: "int \<Rightarrow> int list" where
  "py_range n = map int [0..<nat n]"

text \<open>
  The C cast from floating point to an integer type drops the fractional part
  (rounds toward zero).
\<close>

definition trunc_toward_zero :: "real \<Rightarrow> int" where
  "trunc_toward_zero x = (if x < 0 then \<lceil>x\<rceil> else \<lfloor>x\<rfloor>)"

text \<open>
  \<open>ndarray.astype(np.uint8)\<close> on one element: the cast truncates; the low eight bits are
  kept. The script only casts values of \<open>[0, 255]\<close>, where no wrap-around occurs.
\<close>

definition astype_uint8 :: "real \<Rightarrow> 8 word" where
  "astype_uint8 x = word_of_int (trunc_toward_zero x)"

text \<open>Line 36 on one element: \<open>(v * 255).astype(np.uint8)\<close>.\<close>

definition quantize :: "real \<Rightarrow> 8 word" where
  "quantize v = astype_uint8 (v * 255)"

subsection \<open>Parameters, images and the environment\<close>

text \<open>The keyword arguments of \<open>generate_simplex_noise_texture\<close>; \<open>seed = None\<close> is \<open>None\<close>.\<close>

record params =
  width :: int
  height :: int
  scale :: real
  octaves :: int
  persistence :: real
  lacunarity :: real
  seed :: "int option"
  output_path :: string

text \<open>The defaults of the signature (line 6).\<close>

definition default_params :: params where
  "default_params = \<lparr>width = 256, height = 256, scale = 50, octaves = 4, persistence = 1/2,
     lacunarity = 2, seed = None, output_path = ''public/assets/normal.png''\<rparr>"

text \<open>A PIL image of mode \<open>L\<close>: its size is (columns, rows).\<close>

record image =
  img_size :: "nat \<times> nat"
  img_pixels :: "8 word list list"

text \<open>
  The imported capabilities. \<open>pnoise2\<close> takes \<open>x\<close>, \<open>y\<close>, \<open>octaves\<close>, \<open>persistence\<close>,
  \<open>lacunarity\<close>, \<open>repeatx\<close>, \<open>repeaty\<close>, \<open>base\<close> and may raise; \<open>randint low high\<close>
  draws from the random source \<open>'r\<close>; \<open>mkdir\<close>, \<open>path_exists\<close> and \<open>path_isdir\<close> are the
  operating system's calls on the file system \<open>'f\<close>; \<open>image_save\<close> is \<open>Image.save\<close>,
  which may fail after it has changed the file system.
\<close>

record ('r, 'f) env =
  pnoise2 :: "real \<Rightarrow> real \<Rightarrow> int \<Rightarrow> real \<Rightarrow> real \<Rightarrow> int \<Rightarrow> int \<Rightarrow> int \<Rightarrow> error + real"
  randint :: "int \<Rightarrow> int \<Rightarrow> 'r \<Rightarrow> int \<times> 'r"
  mkdir :: "string \<Rightarrow> 'f \<Rightarrow> error + 'f"
  path_exists :: "string \<Rightarrow> 'f \<Rightarrow> bool"
  path_isdir :: "string \<Rightarrow> 'f \<Rightarrow> bool"
  image_save :: "string \<Rightarrow> image \<Rightarrow> 'f \<Rightarrow> (error + unit) \<times> 'f"

text \<open>What a call can change outside its local variables.\<close>

record ('r, 'f) world =
  rng :: 'r
  fs :: 'f
  stdout :: "string list"

subsection \<open>Path functions of the standard library\<close>

text \<open>\<open>str.rfind\<close> for one character: the last index where it occurs, or \<open>-1\<close>.\<close>

fun rfind :: "char \<Rightarrow> string \<Rightarrow> int" where
  "rfind c [] = -1"
| "rfind c (x # xs) =
     (let r = rfind c xs in if 0 \<le> r then r + 1 else if x = c then 0 else -1)"

text \<open>\<open>str.rstrip\<close> for one character.\<close>

definition rstrip :: "char \<Rightarrow> string \<Rightarrow> string" where
  "rstrip c p = rev (dropWhile (\<lambda>x. x = c) (rev p))"

definition sep :: char where
  "sep = CHR ''/''"

text \<open>The shared head computation of \<open>posixpath.split\<close> and \<open>posixpath.dirname\<close>.\<close>

definition dirname :: "string \<Rightarrow> string" where
  "dirname p =
     (let i = rfind sep p + 1;
          head = take (nat i) p
      in if head \<noteq> [] \<and> head \<noteq> replicate (length head) sep then rstrip sep head else head)"

definition split :: "string \<Rightarrow> string \<times> string" where
  "split p =
     (let i = rfind sep p + 1;
          head = take (nat i) p;
          tail = drop (nat i) p
      in (if head \<noteq> [] \<and> head \<noteq> replicate (length head) sep then rstrip sep head else head,
          tail))"

text \<open>
  The last two statements of \<open>os.makedirs\<close>: \<open>mkdir(name)\<close>, whose \<open>OSError\<close> is
  swallowed when \<open>exist_ok\<close> holds and the name is a directory.
\<close>

definition mkdir_leaf :: "('r, 'f) env \<Rightarrow> string \<Rightarrow> bool \<Rightarrow> 'f \<Rightarrow> (error + unit) \<times> 'f" where
  "mkdir_leaf E name exist_ok f =
     (case mkdir E name f of
        Inr f' \<Rightarrow> (Inr (), f')
      | Inl e \<Rightarrow>
          if is_OSError e \<and> \<not> (\<not> exist_ok \<or> \<not> path_isdir E name f) then (Inr (), f)
          else (Inl e, f))"

text \<open>The pair \<open>(head, tail)\<close> after the first three lines of \<open>os.makedirs\<close>.\<close>

definition makedirs_parts :: "string \<Rightarrow> string \<times> string" where
  "makedirs_parts name =
     (if snd (split name) = [] then split (fst (split name)) else split name)"

text \<open>
  \<open>os.makedirs(name, exist_ok=exist_ok)\<close>: create the missing ancestors first (a
  \<open>FileExistsError\<close> of the recursive call is ignored), stop early when the last component
  is \<open>.\<close>, then create the leaf. Directories created before a failure stay.
\<close>

function makedirs :: "('r, 'f) env \<Rightarrow> string \<Rightarrow> bool \<Rightarrow> 'f \<Rightarrow> (error + unit) \<times> 'f" where
  "makedirs E name exist_ok f =
     (if fst (makedirs_parts name) \<noteq> [] \<and> snd (makedirs_parts name) \<noteq> []
         \<and> \<not> path_exists E (fst (makedirs_parts name)) f
      then
        (case makedirs E (fst (makedirs_parts name)) exist_ok f of
           (Inl e, f1) \<Rightarrow>
             if e = FileExistsError
             then (if snd (makedirs_parts name) = ''.'' then (Inr (), f1)
                   else mkdir_leaf E name exist_ok f1)
             else (Inl e, f1)
         | (Inr u, f1) \<Rightarrow>
             if snd (makedirs_parts name) = ''.'' then (Inr (), f1)
             else mkdir_leaf E name exist_ok f1)
      else mkdir_leaf E name exist_ok f)"
  by pat_completeness auto
termination
proof (relation "measure (\<lambda>(E, name, exist_ok, f). length name)")
  show "wf (measure (\<lambda>(E :: ('r, 'f) env, name, exist_ok :: bool, f :: 'f). length name))"
    by simp
next
  fix E :: "('r, 'f) env" and name :: string and exist_ok :: bool and f :: 'f
  assume a: "fst (makedirs_parts name) \<noteq> [] \<and> snd (makedirs_parts name) \<noteq> []
    \<and> \<not> path_exists E (fst (makedirs_parts name)) f"
  have strip: "length (rstrip sep q) \<le> length q" for q
    by (simp add: rstrip_def length_dropWhile_le [of _ "rev q", simplified])
  have le: "length (fst (split q)) \<le> length q" for q
  proof -
    have "length (rstrip sep (take (nat (rfind sep q + 1)) q)) \<le> length q"
      using strip [of "take (nat (rfind sep q + 1)) q"] by simp
    then show ?thesis by (simp add: split_def Let_def)
  qed
  have less: "length (fst (split q)) < length q" if "snd (split q) \<noteq> []" for q
  proof -
    from that have i: "nat (rfind sep q + 1) < length q" by (simp add: split_def Let_def)
    have "length (rstrip sep (take (nat (rfind sep q + 1)) q)) \<le> nat (rfind sep q + 1)"
      using strip [of "take (nat (rfind sep q + 1)) q"] by simp
    with i show ?thesis by (simp add: split_def Let_def)
  qed
  have "length (fst (makedirs_parts name)) < length name"
  proof (cases "snd (split name) = []")
    case True
    with a have "snd (split (fst (split name))) \<noteq> []" by (simp add: makedirs_parts_def)
    then have "length (fst (split (fst (split name)))) < length (fst (split name))"
      by (rule less)
    also have "\<dots> \<le> length name" by (rule le)
    finally show ?thesis using True by (simp add: makedirs_parts_def)
  next
    case False
    then show ?thesis by (simp add: makedirs_parts_def less)
  qed
  then show "((E, fst (makedirs_parts name), exist_ok, f), (E, name, exist_ok, f))
    \<in> measure (\<lambda>(E, name, exist_ok, f). length name)"
    by simp
qed

declare makedirs.simps [simp del]

subsection \<open>NumPy operations\<close>

text \<open>\<open>np.zeros((h, w))\<close>: a negative dimension raises.\<close>

definition np_zeros :: "int \<Rightarrow> int \<Rightarrow> error + real list list" where
  "np_zeros h w =
     (if h < 0 \<or> w < 0 then Inl (ValueError ''negative dimensions are not allowed'')
      else Inr (replicate (nat h) (replicate (nat w) 0)))"

text \<open>\<open>np.min\<close> and \<open>np.max\<close> over all elements: an array without elements raises.\<close>

definition np_min :: "real list list \<Rightarrow> error + real" where
  "np_min a =
     (case concat a of
        [] \<Rightarrow> Inl (ValueError ''zero-size array to reduction operation minimum which has no identity'')
      | x # xs \<Rightarrow> Inr (fold min xs x))"

definition np_max :: "real list list \<Rightarrow> error + real" where
  "np_max a =
     (case concat a of
        [] \<Rightarrow> Inl (ValueError ''zero-size array to reduction operation maximum which has no identity'')
      | x # xs \<Rightarrow> Inr (fold max xs x))"

definition np_zeros_like :: "real list list \<Rightarrow> real list list" where
  "np_zeros_like a = map (map (\<lambda>v. 0)) a"

text \<open>\<open>Image.fromarray(a, 'L')\<close>: the size is (columns, rows) of the array.\<close>

definition Image_fromarray :: "8 word list list \<Rightarrow> image" where
  "Image_fromarray a =
     \<lparr>img_size = (case a of [] \<Rightarrow> 0 | r # rs \<Rightarrow> length r, length a), img_pixels = a\<rparr>"

subsection \<open>The sampling loops (lines 14 to 25)\<close>

text \<open>
  The right-hand side of line 18 for row \<open>i\<close>, column \<open>j\<close> and the seed \<open>s\<close> in use: both
  quotients are evaluated before the call.
\<close>

definition sample :: "('r, 'f) env \<Rightarrow> params \<Rightarrow> int \<Rightarrow> int \<Rightarrow> int \<Rightarrow> error + real" where
  "sample E P s i j =
     (case py_truediv (of_int i) (scale P) of
        Inl e \<Rightarrow> Inl e
      | Inr x \<Rightarrow>
          (case py_truediv (of_int j) (scale P) of
             Inl e \<Rightarrow> Inl e
           | Inr y \<Rightarrow>
               pnoise2 E x y (octaves P) (persistence P) (lacunarity P) (width P) (height P) s))"

text \<open>
  The loop over \<open>j\<close>: each iteration stores into \<open>world[i][j]\<close>. The indices are within
  the array, which has \<open>height\<close> rows of \<open>width\<close> cells.
\<close>

fun inner_loop ::
  "('r, 'f) env \<Rightarrow> params \<Rightarrow> int \<Rightarrow> int \<Rightarrow> int list \<Rightarrow> real list list \<Rightarrow> error + real list list"
where
  "inner_loop E P s i [] world = Inr world"
| "inner_loop E P s i (j # js) world =
     (case sample E P s i j of
        Inl e \<Rightarrow> Inl e
      | Inr v \<Rightarrow> inner_loop E P s i js (world[nat i := (world ! nat i)[nat j := v]]))"

fun outer_loop ::
  "('r, 'f) env \<Rightarrow> params \<Rightarrow> int \<Rightarrow> int list \<Rightarrow> real list list \<Rightarrow> error + real list list"
where
  "outer_loop E P s [] world = Inr world"
| "outer_loop E P s (i # is) world =
     (case inner_loop E P s i (py_range (width P)) world of
        Inl e \<Rightarrow> Inl e
      | Inr world' \<Rightarrow> outer_loop E P s is world')"

text \<open>Lines 14 to 25: the raw height field \<open>world\<close> for the seed \<open>s\<close>.\<close>

definition sample_world :: "('r, 'f) env \<Rightarrow> params \<Rightarrow> int \<Rightarrow> error + real list list" where
  "sample_world E P s =
     (case np_zeros (height P) (width P) of
        Inl e \<Rightarrow> Inl e
      | Inr world \<Rightarrow> outer_loop E P s (py_range (height P)) world)"

subsection \<open>Normalization and quantization (lines 28 to 39)\<close>

definition normalized_world :: "real list list \<Rightarrow> error + real list list" where
  "normalized_world world =
     (case np_min world of
        Inl e \<Rightarrow> Inl e
      | Inr min_val \<Rightarrow>
          (case np_max world of
             Inl e \<Rightarrow> Inl e
           | Inr max_val \<Rightarrow>
               if max_val = min_val then Inr (np_zeros_like world)
               else Inr (map (map (\<lambda>v. (v - min_val) / (max_val - min_val))) world)))"

definition img_array :: "real list list \<Rightarrow> 8 word list list" where
  "img_array nw = map (map quantize) nw"

text \<open>Lines 28 to 39 on a raw field.\<close>

definition render :: "real list list \<Rightarrow> error + image" where
  "render world =
     (case normalized_world world of
        Inl e \<Rightarrow> Inl e
      | Inr nw \<Rightarrow> Inr (Image_fromarray (img_array nw)))"

subsection \<open>The whole function\<close>

text \<open>Lines 11 and 12: the seed in use and the world after the draw.\<close>

definition draw_seed ::
  "('r, 'f) env \<Rightarrow> params \<Rightarrow> ('r, 'f) world \<Rightarrow> int \<times> ('r, 'f) world" where
  "draw_seed E P w =
     (case seed P of
        None \<Rightarrow> (fst (randint E 0 100 (rng w)), w\<lparr>rng := snd (randint E 0 100 (rng w))\<rparr>)
      | Some s \<Rightarrow> (s, w))"

text \<open>Lines 14 to 39: the image built for the seed \<open>s\<close>.\<close>

definition compute_image :: "('r, 'f) env \<Rightarrow> params \<Rightarrow> int \<Rightarrow> error + image" where
  "compute_image E P s =
     (case sample_world E P s of Inl e \<Rightarrow> Inl e | Inr world \<Rightarrow> render world)"

text \<open>Lines 42 to 46: create the directory of the path, save, report.\<close>

definition write_image ::
  "('r, 'f) env \<Rightarrow> string \<Rightarrow> image \<Rightarrow> ('r, 'f) world \<Rightarrow> (error + unit) \<times> ('r, 'f) world" where
  "write_image E path img w =
     (case makedirs E (dirname path) True (fs w) of
        (Inl e, f1) \<Rightarrow> (Inl e, w\<lparr>fs := f1\<rparr>)
      | (Inr u, f1) \<Rightarrow>
          (case image_save E path img f1 of
             (Inl e, f2) \<Rightarrow> (Inl e, w\<lparr>fs := f2\<rparr>)
           | (Inr u', f2) \<Rightarrow>
               (Inr (), w\<lparr>fs := f2,
                  stdout := stdout w @ [''Generated noise texture saved to '' @ path]\<rparr>)))"

definition generate_simplex_noise_texture ::
  "('r, 'f) env \<Rightarrow> params \<Rightarrow> ('r, 'f) world \<Rightarrow> (error + unit) \<times> ('r, 'f) world" where
  "generate_simplex_noise_texture E P w =
     (case compute_image E P (fst (draw_seed E P w)) of
        Inl e \<Rightarrow> (Inl e, snd (draw_seed E P w))
      | Inr img \<Rightarrow> write_image E (output_path P) img (snd (draw_seed E P w)))"

subsection \<open>Sampling with a primitive that has state\<close>

text \<open>
  The noise primitive is foreign code: what a call returns may depend on the state of the
  process \<open>'m\<close> (memory beyond its tables, internal caches), and a call may change that
  state. Lines 14 to 39 are repeated here for such a primitive, the state being threaded
  through the calls in the order of the loops; an exception leaves the state as the
  failing call left it.
\<close>

type_synonym 'm noise_call =
  "real \<Rightarrow> real \<Rightarrow> int \<Rightarrow> real \<Rightarrow> real \<Rightarrow> int \<Rightarrow> int \<Rightarrow> int \<Rightarrow> 'm \<Rightarrow> (error + real) \<times> 'm"

definition sample_st ::
  "'m noise_call \<Rightarrow> params \<Rightarrow> int \<Rightarrow> int \<Rightarrow> int \<Rightarrow> 'm \<Rightarrow> (error + real) \<times> 'm" where
  "sample_st N P s i j m =
     (case py_truediv (of_int i) (scale P) of
        Inl e \<Rightarrow> (Inl e, m)
      | Inr x \<Rightarrow>
          (case py_truediv (of_int j) (scale P) of
             Inl e \<Rightarrow> (Inl e, m)
           | Inr y \<Rightarrow>
               N x y (octaves P) (persistence P) (lacunarity P) (width P) (height P) s m))"

fun inner_loop_st ::
  "'m noise_call \<Rightarrow> params \<Rightarrow> int \<Rightarrow> int \<Rightarrow> int list \<Rightarrow> real list list \<Rightarrow> 'm
    \<Rightarrow> (error + real list list) \<times> 'm"
where
  "inner_loop_st N P s i [] world m = (Inr world, m)"
| "inner_loop_st N P s i (j # js) world m =
     (case sample_st N P s i j m of
        (Inl e, m') \<Rightarrow> (Inl e, m')
      | (Inr v, m') \<Rightarrow>
          inner_loop_st N P s i js (world[nat i := (world ! nat i)[nat j := v]]) m')"

fun outer_loop_st ::
  "'m noise_call \<Rightarrow> params \<Rightarrow> int \<Rightarrow> int list \<Rightarrow> real list list \<Rightarrow> 'm
    \<Rightarrow> (error + real list list) \<times> 'm"
where
  "outer_loop_st N P s [] world m = (Inr world, m)"
| "outer_loop_st N P s (i # is) world m =
     (case inner_loop_st N P s i (py_range (width P)) world m of
        (Inl e, m') \<Rightarrow> (Inl e, m')
      | (Inr world', m') \<Rightarrow> outer_loop_st N P s is world' m')"

definition sample_world_st ::
  "'m noise_call \<Rightarrow> params \<Rightarrow> int \<Rightarrow> 'm \<Rightarrow> (error + real list list) \<times> 'm" where
  "sample_world_st N P s m =
     (case np_zeros (height P) (width P) of
        Inl e \<Rightarrow> (Inl e, m)
      | Inr world \<Rightarrow> outer_loop_st N P s (py_range (height P)) world m)"

definition compute_image_st ::
  "'m noise_call \<Rightarrow> params \<Rightarrow> int \<Rightarrow> 'm \<Rightarrow> (error + image) \<times> 'm" where
  "compute_image_st N P s m =
     (case sample_world_st N P s m of
        (Inl e, m') \<Rightarrow> (Inl e, m')
      | (Inr world, m') \<Rightarrow> (render world, m'))"

text \<open>
  A primitive whose returned value, at the base \<open>b\<close>, is a function of its arguments
  alone: the state it is called in does not change what it returns.
\<close>

definition state_independent :: "'m noise_call \<Rightarrow> int \<Rightarrow> bool" where
  "state_independent N b =
     (\<forall>x y oc pe la rx ry m m'.
        fst (N x y oc pe la rx ry b m) = fst (N x y oc pe la rx ry b m'))"

text \<open>A primitive without state, seen as one that ignores it.\<close>

definition stateless :: "(real \<Rightarrow> real \<Rightarrow> int \<Rightarrow> real \<Rightarrow> real \<Rightarrow> int \<Rightarrow> int \<Rightarrow> int \<Rightarrow> error + real)
    \<Rightarrow> 'm noise_call" where
  "stateless n = (\<lambda>x y oc pe la rx ry b m. (n x y oc pe la rx ry b, m))"

subsection \<open>Periodicity of a noise primitive\<close>

text \<open>
  The contract of the wrap parameters: shifting \<open>x\<close> by a multiple of \<open>repeatx\<close>, or \<open>y\<close>
  by a multiple of \<open>repeaty\<close>, does not change the value.
\<close>

definition periodic_x ::
  "(real \<Rightarrow> real \<Rightarrow> int \<Rightarrow> real \<Rightarrow> real \<Rightarrow> int \<Rightarrow> int \<Rightarrow> int \<Rightarrow> error + real) \<Rightarrow> bool" where
  "periodic_x n =
     (\<forall>x y oc pe la rx ry b k. n (x + of_int (k * rx)) y oc pe la rx ry b = n x y oc pe la rx ry b)"

definition periodic_y ::
  "(real \<Rightarrow> real \<Rightarrow> int \<Rightarrow> real \<Rightarrow> real \<Rightarrow> int \<Rightarrow> int \<Rightarrow> int \<Rightarrow> error + real) \<Rightarrow> bool" where
  "periodic_y n =
     (\<forall>x y oc pe la rx ry b k. n x (y + of_int (k * ry)) oc pe la rx ry b = n x y oc pe la rx ry b)"

subsection \<open>A test double of the environment\<close>

text \<open>
  A stand-in for the imported capabilities, used to run the model on concrete inputs:
  a noise primitive that is periodic in its wrap parameters and depends on the base, a
  random source that counts, and a file system that is a list of named entries whose
  \<open>mkdir\<close> rejects the empty path and existing names.
\<close>

definition lattice_noise ::
  "real \<Rightarrow> real \<Rightarrow> int \<Rightarrow> real \<Rightarrow> real \<Rightarrow> int \<Rightarrow> int \<Rightarrow> int \<Rightarrow> error + real" where
  "lattice_noise x y oc pe la rx ry b = Inr (of_int (\<lfloor>x\<rfloor> mod rx + \<lfloor>y\<rfloor> mod ry + b))"

datatype entry = Directory | ImageFile image

type_synonym toy_fs = "(string \<times> entry) list"

definition toy_randint :: "int \<Rightarrow> int \<Rightarrow> nat \<Rightarrow> int \<times> nat" where
  "toy_randint low high r = (low + int r mod (high - low), Suc r)"

definition toy_mkdir :: "string \<Rightarrow> toy_fs \<Rightarrow> error + toy_fs" where
  "toy_mkdir p f =
     (if p = [] then Inl FileNotFoundError
      else if map_of f p \<noteq> None then Inl FileExistsError
      else Inr ((p, Directory) # f))"

definition toy_exists :: "string \<Rightarrow> toy_fs \<Rightarrow> bool" where
  "toy_exists p f = (map_of f p \<noteq> None)"

definition toy_isdir :: "string \<Rightarrow> toy_fs \<Rightarrow> bool" where
  "toy_isdir p f = (map_of f p = Some Directory)"

definition toy_save :: "string \<Rightarrow> image \<Rightarrow> toy_fs \<Rightarrow> (error + unit) \<times> toy_fs" where
  "toy_save p img f = (Inr (), (p, ImageFile img) # f)"

definition toy_env :: "(nat, toy_fs) env" where
  "toy_env = \<lparr>pnoise2 = lattice_noise, randint = toy_randint, mkdir = toy_mkdir,
     path_exists = toy_exists, path_isdir = toy_isdir, image_save = toy_save\<rparr>"

definition toy_world :: "(nat, toy_fs) world" where
  "toy_world = \<lparr>rng = 0, fs = [], stdout = []\<rparr>"


text \<open>A small parameter set: a 2 by 2 grid sampled at the lattice points.\<close>

definition small_params :: params where
  "small_params = \<lparr>width = 2, height = 2, scale = 1, octaves = 1, persistence = 1/2,
     lacunarity = 2, seed = Some 0, output_path = ''out/n.png''\<rparr>"

text \<open>A grid that is wider than high, sampled at the lattice points.\<close>

definition wide_params :: params where
  "wide_params = \<lparr>width = 4, height = 2, scale = 1, octaves = 1, persistence = 1/2,
     lacunarity = 2, seed = Some 0, output_path = ''out/w.png''\<rparr>"

section \<open>Properties\<close>

subsection \<open>Minimum, maximum and the rescaling\<close>

lemma fold_min_Min: "fold min xs (x::real) = Min (set (x # xs))"
  by (simp only: Min.set_eq_fold)

lemma fold_max_Max: "fold max xs (x::real) = Max (set (x # xs))"
  by (simp only: Max.set_eq_fold)

lemma np_min_nonempty:
  assumes "concat a \<noteq> []"
  shows "np_min a = Inr (Min (set (concat a)))"
proof -
  from assms obtain x xs where c: "concat a = x # xs" by (cases "concat a") auto
  show ?thesis unfolding np_min_def c by (simp only: list.case fold_min_Min)
qed

lemma np_max_nonempty:
  assumes "concat a \<noteq> []"
  shows "np_max a = Inr (Max (set (concat a)))"
proof -
  from assms obtain x xs where c: "concat a = x # xs" by (cases "concat a") auto
  show ?thesis unfolding np_max_def c by (simp only: list.case fold_max_Max)
qed

lemma np_min_empty:
  assumes "concat a = []"
  shows "np_min a = Inl (ValueError ''zero-size array to reduction operation minimum which has no identity'')"
  unfolding np_min_def assms by (simp only: list.case)

lemma normalized_world_nonempty:
  assumes "concat world \<noteq> []"
  shows "normalized_world world =
    Inr (if Max (set (concat world)) = Min (set (concat world)) then np_zeros_like world
         else map (map (\<lambda>v. (v - Min (set (concat world))) / (Max (set (concat world)) - Min (set (concat world))))) world)"
  by (simp add: normalized_world_def np_min_nonempty [OF assms] np_max_nonempty [OF assms])

lemma normalized_world_Inr_nonempty:
  assumes "normalized_world world = Inr nw"
  shows "concat world \<noteq> []"
proof
  assume "concat world = []"
  then have "normalized_world world = Inl (ValueError ''zero-size array to reduction operation minimum which has no identity'')"
    by (simp add: normalized_world_def np_min_empty)
  with assms show False by simp
qed

lemma rescale_bounds:
  fixes v mn mx :: real
  assumes "mn \<le> v" "v \<le> mx" "mn \<noteq> mx"
  shows "0 \<le> (v - mn) / (mx - mn)" "(v - mn) / (mx - mn) \<le> 1"
proof -
  from assms have d: "0 < mx - mn" by simp
  from assms d show "0 \<le> (v - mn) / (mx - mn)" by simp
  from assms d show "(v - mn) / (mx - mn) \<le> 1" by (simp add: divide_le_eq)
qed

lemma concat_map_map: "concat (map (map f) xss) = map f (concat xss)"
  by (simp add: map_concat)

lemma map_length_map_map: "map length (map (map f) xss) = map length xss"
  by (simp add: comp_def)

subsection \<open>The seed draw\<close>


lemma fs_draw_seed: "fs (snd (draw_seed E P w)) = fs w"
  by (cases "seed P") (simp_all add: draw_seed_def)

lemma stdout_draw_seed: "stdout (snd (draw_seed E P w)) = stdout w"
  by (cases "seed P") (simp_all add: draw_seed_def)

subsection \<open>Shape of the sampled field and of the image\<close>

text \<open>Storing into a cell keeps the shape, so the loops return a grid of the shape \<open>np.zeros\<close> made.\<close>

lemma map_length_cell_update:
  "map length (world[k := (world ! k)[j := v]]) = map length world"
proof (cases "k < length world")
  case True
  then show ?thesis by (simp add: map_update list_update_same_conv)
next
  case False
  then have "length world \<le> k" by simp
  then show ?thesis by (simp only: list_update_beyond)
qed

lemma inner_loop_shape:
  "inner_loop E P s i js world = Inr world' \<Longrightarrow> map length world' = map length world"
proof (induction js arbitrary: world)
  case Nil
  then show ?case by simp
next
  case (Cons j js)
  from Cons.prems obtain v where
    run: "inner_loop E P s i js (world[nat i := (world ! nat i)[nat j := v]]) = Inr world'"
    by (auto split: sum.splits)
  from Cons.IH [OF run] show ?case by (simp only: map_length_cell_update)
qed

lemma outer_loop_shape:
  "outer_loop E P s is world = Inr world' \<Longrightarrow> map length world' = map length world"
proof (induction "is" arbitrary: world)
  case Nil
  then show ?case by simp
next
  case (Cons i "is")
  from Cons.prems obtain w1 where
    a: "inner_loop E P s i (py_range (width P)) world = Inr w1"
    and b: "outer_loop E P s is w1 = Inr world'"
    by (auto split: sum.splits)
  from Cons.IH [OF b] inner_loop_shape [OF a] show ?case by simp
qed

lemma sample_world_shape:
  assumes "sample_world E P s = Inr world"
  shows "0 \<le> height P" "0 \<le> width P"
    "map length world = replicate (nat (height P)) (nat (width P))"
proof -
  from assms have nn: "\<not> (height P < 0 \<or> width P < 0)"
    by (auto simp: sample_world_def np_zeros_def split: if_splits)
  then show "0 \<le> height P" "0 \<le> width P" by simp_all
  from assms nn have
    "outer_loop E P s (py_range (height P)) (replicate (nat (height P)) (replicate (nat (width P)) 0))
       = Inr world"
    by (simp add: sample_world_def np_zeros_def)
  from outer_loop_shape [OF this] show "map length world = replicate (nat (height P)) (nat (width P))"
    by simp
qed

lemma grid_nonempty:
  assumes "map length a = replicate h w" "concat a \<noteq> []"
  shows "0 < h" "0 < w"
proof -
  have "length (concat a) = h * w"
    by (simp add: length_concat assms(1) sum_list_replicate)
  moreover from assms(2) have "0 < length (concat a)" by simp
  ultimately have "0 < h * w" by simp
  then show "0 < h" "0 < w" by simp_all
qed

lemma grid_rows:
  assumes "map length a = replicate h w"
  shows "length a = h" "\<forall>r \<in> set a. length r = w"
proof -
  from assms have "length (map length a) = h" by simp
  then show "length a = h" by simp
  have "set (map length a) \<subseteq> {w}" unfolding assms by auto
  then show "\<forall>r \<in> set a. length r = w" by auto
qed

lemma Image_fromarray_size:
  assumes "map length a = replicate h w" "0 < h"
  shows "img_size (Image_fromarray a) = (w, h)"
proof -
  from assms obtain r rs where a: "a = r # rs" by (cases a) auto
  from assms(1) have "length r = w" unfolding a using assms(2) by (cases h) simp_all
  moreover have "length a = h" by (rule grid_rows(1) [OF assms(1)])
  ultimately show ?thesis unfolding Image_fromarray_def a by simp
qed

lemma render_Inr:
  assumes "render world = Inr img"
  obtains nw where "normalized_world world = Inr nw" "img = Image_fromarray (img_array nw)"
  using assms by (auto simp: render_def split: sum.splits)

lemma normalized_world_shape:
  assumes "normalized_world world = Inr nw"
  shows "map length nw = map length world"
proof -
  have ne: "concat world \<noteq> []" by (rule normalized_world_Inr_nonempty [OF assms])
  show ?thesis
    using assms unfolding normalized_world_nonempty [OF ne] np_zeros_like_def
    by (auto simp: map_length_map_map split: if_splits)
qed

lemma compute_image_Inr:
  assumes "compute_image E P s = Inr img"
  obtains world nw where "sample_world E P s = Inr world" "normalized_world world = Inr nw"
    "img = Image_fromarray (img_array nw)"
proof -
  from assms obtain world where w: "sample_world E P s = Inr world" and r: "render world = Inr img"
    by (auto simp: compute_image_def split: sum.splits)
  from r obtain nw where "normalized_world world = Inr nw" "img = Image_fromarray (img_array nw)"
    by (rule render_Inr)
  with w that show thesis by blast
qed

lemma compute_image_dimensions:
  assumes "compute_image E P s = Inr img"
  shows "0 < width P \<and> 0 < height P
       \<and> img_size img = (nat (width P), nat (height P))
       \<and> map length (img_pixels img) = replicate (nat (height P)) (nat (width P))"
proof -
  from assms obtain world nw where w: "sample_world E P s = Inr world"
    and n: "normalized_world world = Inr nw" and i: "img = Image_fromarray (img_array nw)"
    by (rule compute_image_Inr)
  have sh: "map length world = replicate (nat (height P)) (nat (width P))"
    by (rule sample_world_shape(3) [OF w])
  have ne: "concat world \<noteq> []" by (rule normalized_world_Inr_nonempty [OF n])
  have pos: "0 < nat (height P)" "0 < nat (width P)" by (rule grid_nonempty [OF sh ne])+
  have "map length (img_array nw) = map length nw"
    unfolding img_array_def by (rule map_length_map_map)
  also have "\<dots> = map length world" by (rule normalized_world_shape [OF n])
  finally have px: "map length (img_array nw) = replicate (nat (height P)) (nat (width P))"
    using sh by simp
  have sz: "img_size img = (nat (width P), nat (height P))"
    unfolding i by (rule Image_fromarray_size [OF px pos(1)])
  have pxi: "img_pixels img = img_array nw" unfolding i Image_fromarray_def by simp
  show ?thesis using pos sz px pxi by simp
qed

lemma write_image_Inr:
  assumes "write_image E path img w = (Inr (), w')"
  shows "\<exists>f1 f2. makedirs E (dirname path) True (fs w) = (Inr (), f1)
           \<and> image_save E path img f1 = (Inr (), f2) \<and> fs w' = f2"
proof -
  obtain r1 f1 where m: "makedirs E (dirname path) True (fs w) = (r1, f1)"
    by (cases "makedirs E (dirname path) True (fs w)")
  obtain r2 f2 where s: "image_save E path img f1 = (r2, f2)"
    by (cases "image_save E path img f1")
  from assms have r1: "r1 = Inr ()"
    by (cases r1) (simp_all add: write_image_def m)
  from assms have r2: "r2 = Inr ()"
    by (cases r2) (simp_all add: write_image_def m r1 s)
  from assms have "fs w' = f2"
    by (auto simp add: write_image_def m r1 s r2)
  with m s r1 r2 show ?thesis by simp
qed

subsection \<open>Normalized values\<close>

lemma normalized_world_unit_interval:
  assumes "normalized_world world = Inr nw" "v \<in> set (concat nw)"
  shows "0 \<le> v" "v \<le> 1"
proof -
  have ne: "concat world \<noteq> []" by (rule normalized_world_Inr_nonempty [OF assms(1)])
  define S where "S = set (concat world)"
  define mn where "mn = Min S"
  define mx where "mx = Max S"
  have fin: "finite S" unfolding S_def by simp
  have nwe: "normalized_world world =
      Inr (if mx = mn then np_zeros_like world
           else map (map (\<lambda>v. (v - mn) / (mx - mn))) world)"
    unfolding mx_def mn_def S_def by (rule normalized_world_nonempty [OF ne])
  have "0 \<le> v \<and> v \<le> 1"
  proof (cases "mx = mn")
    case True
    with assms(1) have "nw = map (map (\<lambda>v. 0)) world"
      unfolding nwe np_zeros_like_def by simp
    then have "concat nw = map (\<lambda>v. 0) (concat world)" by (simp only: concat_map_map)
    with assms(2) show ?thesis by auto
  next
    case False
    with assms(1) have "nw = map (map (\<lambda>v. (v - mn) / (mx - mn))) world"
      unfolding nwe by simp
    then have "concat nw = map (\<lambda>v. (v - mn) / (mx - mn)) (concat world)"
      by (simp only: concat_map_map)
    with assms(2) obtain u where u: "u \<in> S" and v: "v = (u - mn) / (mx - mn)"
      unfolding S_def by auto
    have "mn \<le> u" unfolding mn_def by (rule Min_le [OF fin u])
    moreover have "u \<le> mx" unfolding mx_def by (rule Max_ge [OF fin u])
    ultimately show ?thesis using rescale_bounds [of mn u mx] False unfolding v by simp
  qed
  then show "0 \<le> v" "v \<le> 1" by simp_all
qed

lemma quantize_0: "quantize 0 = 0"
  by (simp add: quantize_def astype_uint8_def trunc_toward_zero_def)

lemma quantize_1: "quantize 1 = 255"
  by (simp add: quantize_def astype_uint8_def trunc_toward_zero_def)

lemma uint8_range: "0 \<le> uint (p :: 8 word) \<and> uint p \<le> 255"
proof -
  have "uint p < 2 ^ LENGTH(8)" by (rule uint_lt2p)
  then show ?thesis by simp
qed

lemma img_pixels_fromarray: "img_pixels (Image_fromarray a) = a"
  by (simp add: Image_fromarray_def)

lemma floor_vs_round:
  fixes x :: real
  shows "frac x < 1/2 \<Longrightarrow> \<lfloor>x\<rfloor> = round x" "1/2 < frac x \<Longrightarrow> \<lfloor>x\<rfloor> = round x - 1"
proof -
  assume "frac x < 1/2"
  then have "x + 1/2 < of_int \<lfloor>x\<rfloor> + 1" "of_int \<lfloor>x\<rfloor> \<le> x + 1/2"
    unfolding frac_def by linarith+
  then have "\<lfloor>x + 1/2\<rfloor> = \<lfloor>x\<rfloor>" by (simp add: floor_eq_iff)
  then show "\<lfloor>x\<rfloor> = round x" by (simp add: round_def)
next
  assume "1/2 < frac x"
  then have "of_int (\<lfloor>x\<rfloor> + 1) \<le> x + 1/2" "x + 1/2 < of_int (\<lfloor>x\<rfloor> + 1) + 1"
    unfolding frac_def by (simp, linarith)+
  then have "\<lfloor>x + 1/2\<rfloor> = \<lfloor>x\<rfloor> + 1" by (simp add: floor_eq_iff)
  then show "\<lfloor>x\<rfloor> = round x - 1" by (simp add: round_def)
qed

lemma normalized_world_flat:
  assumes "normalized_world world = Inr nw"
    and "Max (set (concat world)) = Min (set (concat world))"
  shows "nw = map (map (\<lambda>v. 0)) world"
proof -
  have ne: "concat world \<noteq> []" by (rule normalized_world_Inr_nonempty [OF assms(1)])
  from assms(1) show ?thesis
    unfolding normalized_world_nonempty [OF ne] if_P [OF assms(2)] np_zeros_like_def by simp
qed

lemma normalized_world_spread:
  assumes "normalized_world world = Inr nw"
    and "Max (set (concat world)) \<noteq> Min (set (concat world))"
  shows "0 \<in> set (concat nw)" "1 \<in> set (concat nw)"
proof -
  have ne: "concat world \<noteq> []" by (rule normalized_world_Inr_nonempty [OF assms(1)])
  define S where "S = set (concat world)"
  define mn where "mn = Min S"
  define mx where "mx = Max S"
  define f where "f = (\<lambda>v. (v - mn) / (mx - mn))"
  have fin: "finite S" and nes: "S \<noteq> {}" using ne by (simp_all add: S_def)
  have mn_in: "mn \<in> S" unfolding mn_def by (rule Min_in [OF fin nes])
  have mx_in: "mx \<in> S" unfolding mx_def by (rule Max_in [OF fin nes])
  have d: "mx \<noteq> mn" using assms(2) unfolding mx_def mn_def S_def .
  have "normalized_world world = Inr (map (map f) world)"
    unfolding normalized_world_nonempty [OF ne] if_not_P [OF assms(2)] f_def mx_def mn_def S_def ..
  with assms(1) have nw: "nw = map (map f) world" by simp
  have cc: "set (concat nw) = f ` S"
    unfolding nw S_def by (simp only: concat_map_map set_map)
  have z: "f mn = 0" unfolding f_def by simp
  have o: "f mx = 1" unfolding f_def using d by simp
  show "0 \<in> set (concat nw)" unfolding cc using mn_in z by (rule rev_image_eqI [OF _ sym])
  show "1 \<in> set (concat nw)" unfolding cc using mx_in o by (rule rev_image_eqI [OF _ sym])
qed

subsection \<open>Where sampling fails and where it cannot\<close>

text \<open>The loops run zero iterations on an empty range, fail at the first cell when the scale is 0, and
  succeed whenever the noise primitive does.\<close>

lemma py_range_pos: "0 < n \<Longrightarrow> py_range n = 0 # map int [1..<nat n]"
  by (simp add: py_range_def upt_conv_Cons)

lemma py_range_nonpos: "n \<le> 0 \<Longrightarrow> py_range n = []"
  by (simp add: py_range_def)

lemma outer_loop_no_columns:
  assumes "py_range (width P) = []"
  shows "outer_loop E P s is world = Inr world"
  by (induction "is") (simp_all add: assms)

lemma sample_world_negative:
  assumes "width P < 0 \<or> height P < 0"
  shows "sample_world E P s = Inl (ValueError ''negative dimensions are not allowed'')"
  using assms by (auto simp: sample_world_def np_zeros_def)

lemma sample_world_zero_size:
  assumes "0 \<le> width P" "0 \<le> height P" "width P = 0 \<or> height P = 0"
  shows "\<exists>world. sample_world E P s = Inr world \<and> concat world = []"
proof -
  have z: "np_zeros (height P) (width P) = Inr (replicate (nat (height P)) (replicate (nat (width P)) 0))"
    using assms(1,2) by (simp add: np_zeros_def)
  from assms(3) show ?thesis
  proof
    assume w0: "width P = 0"
    then have "py_range (width P) = []" by (simp add: py_range_nonpos)
    then have "sample_world E P s = Inr (replicate (nat (height P)) (replicate (nat (width P)) 0))"
      unfolding sample_world_def z by (simp add: outer_loop_no_columns)
    moreover have "concat (replicate (nat (height P)) (replicate (nat (width P)) (0::real))) = []"
      using w0 by simp
    ultimately show ?thesis by blast
  next
    assume h0: "height P = 0"
    then have "sample_world E P s = Inr []"
      unfolding sample_world_def z by (simp add: py_range_nonpos)
    then show ?thesis by simp
  qed
qed

lemma sample_world_zero_scale:
  assumes "0 < width P" "0 < height P" "scale P = 0"
  shows "sample_world E P s = Inl (ZeroDivisionError ''float division by zero'')"
proof -
  have z: "np_zeros (height P) (width P) = Inr (replicate (nat (height P)) (replicate (nat (width P)) 0))"
    using assms(1,2) by (simp add: np_zeros_def)
  have s: "sample E P s i j = Inl (ZeroDivisionError ''float division by zero'')" for i j
    by (simp add: sample_def py_truediv_def assms(3))
  show ?thesis
    unfolding sample_world_def z
    by (simp add: py_range_pos [OF assms(1)] py_range_pos [OF assms(2)] s)
qed

lemma inner_loop_total:
  assumes "\<And>j. \<exists>v. sample E P s i j = Inr v"
  shows "\<exists>world'. inner_loop E P s i js world = Inr world'"
proof (induction js arbitrary: world)
  case Nil
  show ?case by simp
next
  case (Cons j js)
  from assms obtain v where v: "sample E P s i j = Inr v" by blast
  from Cons [of "world[nat i := (world ! nat i)[nat j := v]]"] show ?case by (simp add: v)
qed

lemma outer_loop_total:
  assumes "\<And>i j. \<exists>v. sample E P s i j = Inr v"
  shows "\<exists>world'. outer_loop E P s is world = Inr world'"
proof (induction "is" arbitrary: world)
  case Nil
  show ?case by simp
next
  case (Cons i "is")
  from inner_loop_total [of E P s i "py_range (width P)" world] assms
  obtain w1 where w1: "inner_loop E P s i (py_range (width P)) world = Inr w1" by blast
  from Cons [of w1] show ?case by (simp add: w1)
qed

lemma sample_world_total:
  assumes "0 \<le> width P" "0 \<le> height P" "scale P \<noteq> 0"
    and "\<And>x y. \<exists>v. pnoise2 E x y (octaves P) (persistence P) (lacunarity P) (width P) (height P) s = Inr v"
  shows "\<exists>world. sample_world E P s = Inr world"
proof -
  have "\<exists>v. sample E P s i j = Inr v" for i j
    using assms(3,4) by (simp add: sample_def py_truediv_def)
  from outer_loop_total [of E P s, OF this]
  show ?thesis using assms(1,2) by (simp add: sample_world_def np_zeros_def)
qed

lemma render_zero_size:
  assumes "concat world = []"
  shows "render world = Inl (ValueError ''zero-size array to reduction operation minimum which has no identity'')"
  by (simp add: render_def normalized_world_def np_min_empty [OF assms])

subsection \<open>Paths without a separator\<close>

lemma rfind_absent: "c \<notin> set p \<Longrightarrow> rfind c p = -1"
  by (induction p) (auto simp: Let_def)

lemma dirname_bare: "sep \<notin> set p \<Longrightarrow> dirname p = []"
  by (simp add: dirname_def rfind_absent)

lemma makedirs_parts_empty: "makedirs_parts [] = ([], [])"
  by (simp add: makedirs_parts_def split_def)

lemma makedirs_empty: "makedirs E [] exist_ok f = mkdir_leaf E [] exist_ok f"
  by (subst makedirs.simps) (simp add: makedirs_parts_empty)

lemma mkdir_leaf_fails:
  assumes "mkdir E name f = Inl e" "\<not> path_isdir E name f"
  shows "mkdir_leaf E name exist_ok f = (Inl e, f)"
  by (simp add: mkdir_leaf_def assms)

lemma write_image_bare:
  assumes "sep \<notin> set path" "mkdir E [] (fs w) = Inl e" "\<not> path_isdir E [] (fs w)"
  shows "write_image E path img w = (Inl e, w)"
  by (simp add: write_image_def dirname_bare [OF assms(1)] makedirs_empty
      mkdir_leaf_fails [OF assms(2,3)])

subsection \<open>Seed and periodicity\<close>

text \<open>With \<open>scale = 1\<close> a periodic primitive makes the rows repeat with period \<open>width\<close> and the
  columns with period \<open>height\<close>: the wrap parameters are attached to the opposite axes.\<close>

lemma draw_seed_unset:
  "seed P = None \<Longrightarrow> fst (draw_seed E P w) = fst (randint E 0 100 (rng w))"
  by (simp add: draw_seed_def)

lemma floor_shift_mod: "\<lfloor>x + real_of_int (k * r)\<rfloor> mod r = \<lfloor>x\<rfloor> mod r"
proof -
  have "\<lfloor>x + real_of_int (k * r)\<rfloor> = \<lfloor>x\<rfloor> + k * r" by (simp only: floor_add_int)
  then show ?thesis by simp
qed

lemma periodic_x_lattice_noise: "periodic_x lattice_noise"
  unfolding periodic_x_def lattice_noise_def by (simp only: floor_shift_mod) simp

lemma periodic_y_lattice_noise: "periodic_y lattice_noise"
  unfolding periodic_y_def lattice_noise_def by (simp only: floor_shift_mod) simp

lemma sample_row_period:
  assumes "periodic_x (pnoise2 E)" "scale P = 1"
  shows "sample E P s (i + k * width P) j = sample E P s i j"
proof -
  have "pnoise2 E (of_int i + of_int (k * width P)) y oc pe la (width P) ry b
      = pnoise2 E (of_int i) y oc pe la (width P) ry b" for y oc pe la ry b
    using assms(1) unfolding periodic_x_def by blast
  then show ?thesis by (simp add: sample_def py_truediv_def assms(2))
qed

lemma sample_column_period:
  assumes "periodic_y (pnoise2 E)" "scale P = 1"
  shows "sample E P s i (j + k * height P) = sample E P s i j"
proof -
  have "pnoise2 E x (of_int j + of_int (k * height P)) oc pe la rx (height P) b
      = pnoise2 E x (of_int j) oc pe la rx (height P) b" for x oc pe la rx b
    using assms(1) unfolding periodic_y_def by blast
  then show ?thesis by (simp add: sample_def py_truediv_def assms(2))
qed

subsection \<open>What the loops return with a stateful primitive\<close>






lemma sample_st_stateless:
  "sample_st (stateless (pnoise2 E)) P s i j m = (sample E P s i j, m)"
  by (simp add: sample_st_def sample_def stateless_def split: sum.splits)

lemma inner_loop_st_stateless:
  "inner_loop_st (stateless (pnoise2 E)) P s i js world m = (inner_loop E P s i js world, m)"
  by (induction js arbitrary: world) (simp_all add: sample_st_stateless split: sum.splits)

lemma outer_loop_st_stateless:
  "outer_loop_st (stateless (pnoise2 E)) P s is world m = (outer_loop E P s is world, m)"
  by (induction "is" arbitrary: world) (simp_all add: inner_loop_st_stateless split: sum.splits)

lemma sample_world_st_stateless:
  "sample_world_st (stateless (pnoise2 E)) P s m = (sample_world E P s, m)"
  by (simp add: sample_world_st_def sample_world_def outer_loop_st_stateless split: sum.splits)

lemma compute_image_st_stateless:
  "compute_image_st (stateless (pnoise2 E)) P s m = (compute_image E P s, m)"
  by (simp add: compute_image_st_def compute_image_def sample_world_st_stateless split: sum.splits)

lemma state_independent_stateless: "state_independent (stateless n) b"
  by (simp add: state_independent_def stateless_def)

subsection \<open>Quantizer\<close>

lemma floor_times_255_bounds:
  assumes "0 \<le> v" "v \<le> 1"
  shows "0 \<le> \<lfloor>v * 255\<rfloor>" "\<lfloor>v * 255\<rfloor> \<le> 255"
proof -
  from assms show "0 \<le> \<lfloor>v * 255\<rfloor>" by simp
  from assms have "v * 255 \<le> 255" by simp
  then show "\<lfloor>v * 255\<rfloor> \<le> 255" by (simp add: floor_le_iff)
qed

lemma uint_quantize:
  assumes "0 \<le> v" "v \<le> 1"
  shows "uint (quantize v) = \<lfloor>v * 255\<rfloor>"
proof -
  have nn: "\<not> v * 255 < 0" using assms by simp
  have "uint (quantize v) = take_bit 8 \<lfloor>v * 255\<rfloor>"
    using nn by (simp add: quantize_def astype_uint8_def trunc_toward_zero_def uint_word_of_int_eq)
  also have "\<dots> = \<lfloor>v * 255\<rfloor>"
    using floor_times_255_bounds [OF assms] by (simp add: take_bit_int_eq_self)
  finally show ?thesis .
qed

text \<open>
  Claim C3. For every normalized value \<open>v\<close> in \<open>[0, 1]\<close> the quantizer returns the unsigned
  byte whose value is \<open>v * 255\<close> with the fractional part dropped (truncation toward zero,
  which on this range is the floor), never more than the product and less than one below
  it; \<open>1.0\<close> gives 255 and \<open>0.0\<close> gives 0.
\<close>

theorem quantize_truncates:
  assumes "0 \<le> v" "v \<le> 1"
  shows "uint (quantize v) = trunc_toward_zero (v * 255)
       \<and> trunc_toward_zero (v * 255) = \<lfloor>v * 255\<rfloor>
       \<and> real_of_int (uint (quantize v)) \<le> v * 255
       \<and> v * 255 < real_of_int (uint (quantize v)) + 1
       \<and> quantize 1 = 255 \<and> quantize 0 = 0"
proof -
  have t: "trunc_toward_zero (v * 255) = \<lfloor>v * 255\<rfloor>"
    using assms by (simp add: trunc_toward_zero_def)
  have u: "uint (quantize v) = \<lfloor>v * 255\<rfloor>"
    by (rule uint_quantize [OF assms])
  have one: "quantize 1 = 255"
    by (simp add: quantize_def astype_uint8_def trunc_toward_zero_def)
  have zero: "quantize 0 = 0"
    by (simp add: quantize_def astype_uint8_def trunc_toward_zero_def)
  have lo: "real_of_int \<lfloor>v * 255\<rfloor> \<le> v * 255" by (rule of_int_floor_le)
  have hi: "v * 255 < real_of_int \<lfloor>v * 255\<rfloor> + 1" by linarith
  show ?thesis using t u one zero lo hi by simp
qed

theorem quantize_truncates_witness:
  "uint (quantize (1/2)) = 127 \<and> trunc_toward_zero ((1/2) * 255) = 127"
  using quantize_truncates [of "1/2"] by (simp add: trunc_toward_zero_def)

subsection \<open>Normalizer\<close>

text \<open>
  Claim C2. For every raw height field with at least one element: when the global maximum
  equals the global minimum the normalizer returns the all-zero field of the same shape;
  otherwise it maps every value \<open>v\<close> to \<open>(v - min) / (max - min)\<close>, every result lies in
  \<open>[0, 1]\<close>, the minimum is mapped to 0, the maximum to 1, and both values occur in the
  result.
\<close>

theorem normalized_world_contract:
  assumes "concat world \<noteq> []"
  shows "\<exists>nw. normalized_world world = Inr nw \<and> map length nw = map length world \<and>
     (if Max (set (concat world)) = Min (set (concat world))
      then nw = map (map (\<lambda>v. 0)) world
      else nw = map (map (\<lambda>v. (v - Min (set (concat world)))
                              / (Max (set (concat world)) - Min (set (concat world))))) world
        \<and> (\<forall>v \<in> set (concat nw). 0 \<le> v \<and> v \<le> 1)
        \<and> (Min (set (concat world)) - Min (set (concat world)))
              / (Max (set (concat world)) - Min (set (concat world))) = 0
        \<and> (Max (set (concat world)) - Min (set (concat world)))
              / (Max (set (concat world)) - Min (set (concat world))) = 1
        \<and> 0 \<in> set (concat nw) \<and> 1 \<in> set (concat nw))"
proof -
  define S where "S = set (concat world)"
  define mn where "mn = Min S"
  define mx where "mx = Max S"
  define f where "f = (\<lambda>v. (v - mn) / (mx - mn))"
  have fin: "finite S" and ne: "S \<noteq> {}" using assms by (simp_all add: S_def)
  have mn_in: "mn \<in> S" unfolding mn_def by (rule Min_in [OF fin ne])
  have mx_in: "mx \<in> S" unfolding mx_def by (rule Max_in [OF fin ne])
  have nwe: "normalized_world world =
      Inr (if mx = mn then np_zeros_like world else map (map f) world)"
    unfolding mx_def mn_def S_def f_def by (rule normalized_world_nonempty [OF assms])
  have goal: "\<exists>nw. normalized_world world = Inr nw \<and> map length nw = map length world \<and>
     (if mx = mn then nw = map (map (\<lambda>v. 0)) world
      else nw = map (map f) world
        \<and> (\<forall>v \<in> set (concat nw). 0 \<le> v \<and> v \<le> 1)
        \<and> f mn = 0 \<and> f mx = 1 \<and> 0 \<in> set (concat nw) \<and> 1 \<in> set (concat nw))"
  proof (cases "mx = mn")
    case True
    have "normalized_world world = Inr (map (map (\<lambda>v. 0)) world)"
      unfolding nwe np_zeros_like_def using True by simp
    moreover have "map length (map (map (\<lambda>v. 0::real)) world) = map length world"
      by (rule map_length_map_map)
    ultimately show ?thesis using True by simp
  next
    case False
    have eq: "normalized_world world = Inr (map (map f) world)"
      unfolding nwe using False by simp
    have len: "map length (map (map f) world) = map length world"
      by (rule map_length_map_map)
    have cc: "set (concat (map (map f) world)) = f ` S"
      unfolding S_def by (simp only: concat_map_map set_map)
    have rng: "\<forall>v \<in> set (concat (map (map f) world)). 0 \<le> v \<and> v \<le> 1"
    proof
      fix u assume "u \<in> set (concat (map (map f) world))"
      then obtain v where v: "v \<in> S" and u: "u = f v" unfolding cc by blast
      have "mn \<le> v" unfolding mn_def by (rule Min_le [OF fin v])
      moreover have "v \<le> mx" unfolding mx_def by (rule Max_ge [OF fin v])
      ultimately show "0 \<le> u \<and> u \<le> 1"
        using rescale_bounds [of mn v mx] False unfolding u f_def by simp
    qed
    have z: "f mn = 0" unfolding f_def by simp
    have o: "f mx = 1" unfolding f_def using False by simp
    have zin: "0 \<in> set (concat (map (map f) world))"
      unfolding cc using mn_in z by (rule rev_image_eqI [OF _ sym])
    have oin: "1 \<in> set (concat (map (map f) world))"
      unfolding cc using mx_in o by (rule rev_image_eqI [OF _ sym])
    show ?thesis
    proof (intro exI conjI)
      show "normalized_world world = Inr (map (map f) world)" by (rule eq)
      show "map length (map (map f) world) = map length world" by (rule len)
      show "if mx = mn then map (map f) world = map (map (\<lambda>v. 0)) world
        else map (map f) world = map (map f) world
          \<and> (\<forall>v \<in> set (concat (map (map f) world)). 0 \<le> v \<and> v \<le> 1)
          \<and> f mn = 0 \<and> f mx = 1 \<and> 0 \<in> set (concat (map (map f) world))
          \<and> 1 \<in> set (concat (map (map f) world))"
        using False rng z o zin oin by simp
    qed
  qed
  then show ?thesis unfolding f_def mx_def mn_def S_def .
qed


theorem normalized_world_contract_witness:
  "concat [[0, 1, 4 :: real]] \<noteq> [] \<and> normalized_world [[0, 1, 4]] = Inr [[0, 1/4, 1]]"
  using normalized_world_contract [of "[[0, 1, 4]]"] by simp

subsection \<open>Determinism\<close>




subsection \<open>Shape of the output\<close>

text \<open>
  Claim C8. When a call completes successfully, \<open>width\<close> and \<open>height\<close> are positive and
  the image handed to the encoder has size \<open>(width, height)\<close>: its byte grid has
  \<open>height\<close> rows of \<open>width\<close> columns each.
\<close>

theorem output_dimensions:
  assumes "generate_simplex_noise_texture E P w = (Inr (), w')"
  shows "\<exists>img f1. compute_image E P (fst (draw_seed E P w)) = Inr img
       \<and> image_save E (output_path P) img f1 = (Inr (), fs w')
       \<and> 0 < width P \<and> 0 < height P
       \<and> img_size img = (nat (width P), nat (height P))
       \<and> length (img_pixels img) = nat (height P)
       \<and> (\<forall>row \<in> set (img_pixels img). length row = nat (width P))"
proof -
  from assms obtain img where c: "compute_image E P (fst (draw_seed E P w)) = Inr img"
    and wr: "write_image E (output_path P) img (snd (draw_seed E P w)) = (Inr (), w')"
    by (auto simp: generate_simplex_noise_texture_def split: sum.splits)
  from write_image_Inr [OF wr] obtain f1 where
    sv: "image_save E (output_path P) img f1 = (Inr (), fs w')" by auto
  note d = compute_image_dimensions [OF c]
  from d have px: "map length (img_pixels img) = replicate (nat (height P)) (nat (width P))"
    by simp
  note rows = grid_rows [OF px]
  show ?thesis
  proof (intro exI conjI)
    show "compute_image E P (fst (draw_seed E P w)) = Inr img" by (rule c)
    show "image_save E (output_path P) img f1 = (Inr (), fs w')" by (rule sv)
    show "0 < width P" "0 < height P" "img_size img = (nat (width P), nat (height P))"
      using d by simp_all
    show "length (img_pixels img) = nat (height P)" by (rule rows(1))
    show "\<forall>row \<in> set (img_pixels img). length row = nat (width P)" by (rule rows(2))
  qed
qed

theorem output_dimensions_witness:
  "generate_simplex_noise_texture toy_env small_params toy_world =
     (Inr (), \<lparr>rng = 0,
        fs = [(''out/n.png'', ImageFile \<lparr>img_size = (2, 2), img_pixels = [[0, 127], [127, 255]]\<rparr>),
              (''out'', Directory)],
        stdout = [''Generated noise texture saved to out/n.png'']\<rparr>)
   \<and> (\<exists>img. compute_image toy_env small_params 0 = Inr img \<and> img_size img = (2, 2))"
proof -
  have run: "generate_simplex_noise_texture toy_env small_params toy_world =
     (Inr (), \<lparr>rng = 0,
        fs = [(''out/n.png'', ImageFile \<lparr>img_size = (2, 2), img_pixels = [[0, 127], [127, 255]]\<rparr>),
              (''out'', Directory)],
        stdout = [''Generated noise texture saved to out/n.png'']\<rparr>)"
    by code_simp
  have s: "fst (draw_seed toy_env small_params toy_world) = 0"
    by (simp add: draw_seed_def small_params_def)
  have wh: "width small_params = 2" "height small_params = 2" by (simp_all add: small_params_def)
  from output_dimensions [OF run] show ?thesis unfolding s wh using run by auto
qed

subsection \<open>Range of the output\<close>

text \<open>
  Claim C5. For every image the computation returns (which implies positive \<open>width\<close>
  and \<open>height\<close>), every byte lies in \<open>[0, 255]\<close>; when the raw field is flat
  (maximum equal to minimum) every pixel is 0, and otherwise some pixel is 0 and some
  pixel is 255.
\<close>

theorem pixel_range:
  assumes "compute_image E P s = Inr img"
  shows "\<exists>world. sample_world E P s = Inr world \<and> 0 < width P \<and> 0 < height P
     \<and> (\<forall>p \<in> set (concat (img_pixels img)). 0 \<le> uint p \<and> uint p \<le> 255)
     \<and> (if Max (set (concat world)) = Min (set (concat world))
        then \<forall>p \<in> set (concat (img_pixels img)). p = 0
        else 0 \<in> set (concat (img_pixels img)) \<and> 255 \<in> set (concat (img_pixels img)))"
proof -
  from assms obtain world nw where w: "sample_world E P s = Inr world"
    and n: "normalized_world world = Inr nw" and i: "img = Image_fromarray (img_array nw)"
    by (rule compute_image_Inr)
  have ne: "concat world \<noteq> []" by (rule normalized_world_Inr_nonempty [OF n])
  have px: "concat (img_pixels img) = map quantize (concat nw)"
    unfolding i img_pixels_fromarray img_array_def by (rule concat_map_map)
  have pos: "0 < width P" "0 < height P" using compute_image_dimensions [OF assms] by simp_all
  have bytes: "\<forall>p \<in> set (concat (img_pixels img)). 0 \<le> uint p \<and> uint p \<le> 255"
    using uint8_range by blast
  have ext: "if Max (set (concat world)) = Min (set (concat world))
        then \<forall>p \<in> set (concat (img_pixels img)). p = 0
        else 0 \<in> set (concat (img_pixels img)) \<and> 255 \<in> set (concat (img_pixels img))"
  proof (cases "Max (set (concat world)) = Min (set (concat world))")
    case True
    have "nw = map (map (\<lambda>v. 0)) world"
      by (rule normalized_world_flat [OF n True])
    then have "concat nw = map (\<lambda>v. 0) (concat world)" by (simp only: concat_map_map)
    then have "concat (img_pixels img) = map (\<lambda>v. quantize 0) (concat world)"
      unfolding px by simp
    then have "\<forall>p \<in> set (concat (img_pixels img)). p = 0"
      by (auto simp: quantize_0)
    then show ?thesis unfolding if_P [OF True] .
  next
    case False
    note z = normalized_world_spread(1) [OF n False]
    note o = normalized_world_spread(2) [OF n False]
    have "quantize 0 \<in> set (concat (img_pixels img))"
      unfolding px set_map using z by (rule imageI)
    moreover have "quantize 1 \<in> set (concat (img_pixels img))"
      unfolding px set_map using o by (rule imageI)
    ultimately have "0 \<in> set (concat (img_pixels img)) \<and> 255 \<in> set (concat (img_pixels img))"
      unfolding quantize_0 quantize_1 by (rule conjI)
    then show ?thesis unfolding if_not_P [OF False] .
  qed
  show ?thesis
    by (intro exI conjI) (rule w, rule pos(1), rule pos(2), rule bytes, rule ext)
qed

theorem pixel_range_witness:
  "compute_image toy_env small_params 0
     = Inr \<lparr>img_size = (2, 2), img_pixels = [[0, 127], [127, 255]]\<rparr>
   \<and> (\<exists>world. sample_world toy_env small_params 0 = Inr world
        \<and> (if Max (set (concat world)) = Min (set (concat world))
            then \<forall>p \<in> set (concat [[0, 127], [127, 255 :: 8 word]]). p = 0
            else 0 \<in> set (concat [[0, 127], [127, 255 :: 8 word]])
               \<and> 255 \<in> set (concat [[0, 127], [127, 255 :: 8 word]])))"
proof -
  have run: "compute_image toy_env small_params 0
     = Inr \<lparr>img_size = (2, 2), img_pixels = [[0, 127], [127, 255]]\<rparr>"
    by code_simp
  from pixel_range [OF run] obtain world where
    "sample_world toy_env small_params 0 = Inr world"
    "if Max (set (concat world)) = Min (set (concat world))
        then \<forall>p \<in> set (concat [[0, 127], [127, 255 :: 8 word]]). p = 0
        else 0 \<in> set (concat [[0, 127], [127, 255 :: 8 word]])
           \<and> 255 \<in> set (concat [[0, 127], [127, 255 :: 8 word]])"
    by auto
  with run show ?thesis by blast
qed

subsection \<open>Truncation, not rounding\<close>

text \<open>
  Claim C4, as amended. For every normalized field the script produces, each output pixel
  is the floor of \<open>normalized_value * 255\<close> as an unsigned byte. This is the value
  rounded to the nearest integer when the fractional part of the product is below one
  half, and one less than it when the fractional part is above one half.
\<close>

theorem pixels_truncated:
  assumes "normalized_world world = Inr nw"
  shows "map (map uint) (img_array nw) = map (map (\<lambda>v. \<lfloor>v * 255\<rfloor>)) nw
       \<and> (\<forall>v \<in> set (concat nw).
            (frac (v * 255) < 1/2 \<longrightarrow> uint (quantize v) = round (v * 255))
          \<and> (1/2 < frac (v * 255) \<longrightarrow> uint (quantize v) = round (v * 255) - 1))"
proof -
  have q: "uint (quantize v) = \<lfloor>v * 255\<rfloor>" if "v \<in> set (concat nw)" for v
    using normalized_world_unit_interval [OF assms that] by (rule uint_quantize)
  have cell: "uint (quantize v) = \<lfloor>v * 255\<rfloor>" if "r \<in> set nw" "v \<in> set r" for r v
    using that by (intro q) auto
  have "map (map uint) (img_array nw) = map (map (\<lambda>v. \<lfloor>v * 255\<rfloor>)) nw"
    unfolding img_array_def by (simp add: cell comp_def)
  moreover have "\<forall>v \<in> set (concat nw).
            (frac (v * 255) < 1/2 \<longrightarrow> uint (quantize v) = round (v * 255))
          \<and> (1/2 < frac (v * 255) \<longrightarrow> uint (quantize v) = round (v * 255) - 1)"
  proof (intro ballI conjI impI)
    fix v assume v: "v \<in> set (concat nw)"
    { assume "frac (v * 255) < 1/2"
      then show "uint (quantize v) = round (v * 255)"
        unfolding q [OF v] by (rule floor_vs_round(1)) }
    { assume "1/2 < frac (v * 255)"
      then show "uint (quantize v) = round (v * 255) - 1"
        unfolding q [OF v] by (rule floor_vs_round(2)) }
  qed
  ultimately show ?thesis by (rule conjI)
qed

theorem pixels_truncated_witness:
  "normalized_world [[0, 1, 4]] = Inr [[0, 1/4, 1]]
   \<and> map (map uint) (img_array [[0, 1/4, 1]]) = [[0, 63, 255]]
   \<and> (1/2 < frac (1/4 * 255 :: real) \<and> uint (quantize (1/4)) = round (1/4 * 255 :: real) - 1)"
proof -
  have n: "normalized_world [[0, 1, 4]] = Inr [[0, 1/4, 1]]"
    by (simp add: normalized_world_def np_min_def np_max_def)
  have f: "1/2 < frac (1/4 * 255 :: real)" by (simp add: frac_def)
  from pixels_truncated [OF n] f show ?thesis unfolding n by simp
qed

text \<open>
  The statement with rounding fails: the raw field \<open>[[0, 1, 4]]\<close> is normalized to
  \<open>[[0, 1/4, 1]]\<close>; the middle product is 63.75, which rounds to 64, and the pixel is 63.
\<close>

theorem rounding_counterexample:
  "normalized_world [[0, 1, 4]] = Inr [[0, 1/4, 1]]
   \<and> img_array [[0, 1/4, 1]] = [[0, 63, 255]]
   \<and> round (1/4 * 255 :: real) = 64
   \<and> img_array [[0, 1/4, 1]] ! 0 ! 1 \<noteq> word_of_int (round (1/4 * 255 :: real))"
proof -
  have n: "normalized_world [[0, 1, 4]] = Inr [[0, 1/4, 1]]"
    by (simp add: normalized_world_def np_min_def np_max_def)
  have q: "img_array [[0, 1/4, 1]] = [[0, 63, 255]]"
    by (simp add: img_array_def quantize_def astype_uint8_def trunc_toward_zero_def)
  have r: "round (1/4 * 255 :: real) = 64"
    by (simp add: round_def)
  show ?thesis unfolding n q r by simp
qed

subsection \<open>Invalid parameters\<close>

text \<open>
  Claim C7, as amended. A call with \<open>width \<le> 0\<close>, \<open>height \<le> 0\<close> or \<open>scale = 0\<close>
  raises and leaves the file system and the console untouched: a negative dimension
  raises \<open>ValueError\<close> in \<open>np.zeros\<close> before sampling; otherwise a zero dimension
  raises \<open>ValueError\<close> in \<open>np.min\<close> on the empty grid, after the sampling loops ran
  zero iterations; otherwise \<open>scale = 0\<close> raises \<open>ZeroDivisionError\<close> at the first
  sample. (A negative scale is not among the rejected inputs.)
\<close>

theorem invalid_parameters_rejected:
  assumes "width P \<le> 0 \<or> height P \<le> 0 \<or> scale P = 0"
  shows "generate_simplex_noise_texture E P w =
      (Inl (if width P < 0 \<or> height P < 0
              then ValueError ''negative dimensions are not allowed''
            else if width P = 0 \<or> height P = 0
              then ValueError ''zero-size array to reduction operation minimum which has no identity''
            else ZeroDivisionError ''float division by zero''),
       snd (draw_seed E P w))
    \<and> fs (snd (draw_seed E P w)) = fs w
    \<and> stdout (snd (draw_seed E P w)) = stdout w"
proof -
  define s where "s = fst (draw_seed E P w)"
  define err where "err = (if width P < 0 \<or> height P < 0
              then ValueError ''negative dimensions are not allowed''
            else if width P = 0 \<or> height P = 0
              then ValueError ''zero-size array to reduction operation minimum which has no identity''
            else ZeroDivisionError ''float division by zero'')"
  have c: "compute_image E P s = Inl err"
  proof (cases "width P < 0 \<or> height P < 0")
    case True
    then show ?thesis
      unfolding compute_image_def err_def by (simp add: sample_world_negative)
  next
    case nonneg: False
    show ?thesis
    proof (cases "width P = 0 \<or> height P = 0")
      case True
      from nonneg have "0 \<le> width P" "0 \<le> height P" by simp_all
      from sample_world_zero_size [OF this True] obtain world where
        "sample_world E P s = Inr world" "concat world = []" by blast
      then have "compute_image E P s
          = Inl (ValueError ''zero-size array to reduction operation minimum which has no identity'')"
        unfolding compute_image_def by (simp add: render_zero_size)
      then show ?thesis unfolding err_def using nonneg True by simp
    next
      case False
      with nonneg assms have pos: "0 < width P" "0 < height P" "scale P = 0" by auto
      have "compute_image E P s = Inl (ZeroDivisionError ''float division by zero'')"
        unfolding compute_image_def by (simp add: sample_world_zero_scale [OF pos])
      then show ?thesis unfolding err_def using nonneg False by simp
    qed
  qed
  have "generate_simplex_noise_texture E P w = (Inl err, snd (draw_seed E P w))"
    unfolding generate_simplex_noise_texture_def using c unfolding s_def by simp
  then show ?thesis unfolding err_def by (simp add: fs_draw_seed stdout_draw_seed)
qed

theorem invalid_parameters_rejected_witness:
  "scale (small_params\<lparr>scale := 0\<rparr>) = 0
   \<and> generate_simplex_noise_texture toy_env (small_params\<lparr>scale := 0\<rparr>) toy_world
       = (Inl (ZeroDivisionError ''float division by zero''), toy_world)"
  using invalid_parameters_rejected [of "small_params\<lparr>scale := 0\<rparr>" toy_env toy_world]
  by (simp add: small_params_def draw_seed_def)

text \<open>
  The claim as stated also covers a negative scale, which the script does not reject: the
  2 by 2 grid with \<open>scale = -1\<close> is sampled, written and reported.
\<close>

theorem negative_scale_counterexample:
  "scale (small_params\<lparr>scale := -1\<rparr>) \<le> 0
   \<and> generate_simplex_noise_texture toy_env (small_params\<lparr>scale := -1\<rparr>) toy_world =
     (Inr (), \<lparr>rng = 0,
        fs = [(''out/n.png'', ImageFile \<lparr>img_size = (2, 2), img_pixels = [[0, 127], [127, 255]]\<rparr>),
              (''out'', Directory)],
        stdout = [''Generated noise texture saved to out/n.png'']\<rparr>)"
  by code_simp

subsection \<open>An output path without a directory\<close>

text \<open>
  Claim C9. When the output path has no directory component (no \<open>/\<close> in it), its
  \<open>dirname\<close> is the empty string and \<open>os.makedirs\<close> passes the empty string to
  \<open>mkdir\<close>. On a system where \<open>mkdir\<close> fails on the empty path and the empty path is
  not a directory (as POSIX prescribes, with \<open>ENOENT\<close>), every call raises, a call whose
  image was computed raises exactly the error of \<open>mkdir\<close>, and the file system is
  unchanged: the file is never written.
\<close>

theorem bare_filename_not_written:
  assumes "sep \<notin> set (output_path P)"
    and "mkdir E [] (fs w) = Inl e0"
    and "\<not> path_isdir E [] (fs w)"
  shows "(\<exists>e. generate_simplex_noise_texture E P w = (Inl e, snd (draw_seed E P w)))
       \<and> fs (snd (draw_seed E P w)) = fs w
       \<and> (\<forall>img. compute_image E P (fst (draw_seed E P w)) = Inr img \<longrightarrow>
             generate_simplex_noise_texture E P w = (Inl e0, snd (draw_seed E P w)))"
proof -
  define w1 where "w1 = snd (draw_seed E P w)"
  have f: "fs w1 = fs w" unfolding w1_def by (rule fs_draw_seed)
  have wr: "write_image E (output_path P) img w1 = (Inl e0, w1)" for img
    by (rule write_image_bare [OF assms(1)]) (simp_all add: f assms(2,3))
  have ok: "generate_simplex_noise_texture E P w = (Inl e0, w1)"
    if "compute_image E P (fst (draw_seed E P w)) = Inr img" for img
    unfolding generate_simplex_noise_texture_def that w1_def [symmetric] by (simp add: wr)
  have "\<exists>e. generate_simplex_noise_texture E P w = (Inl e, w1)"
  proof (cases "compute_image E P (fst (draw_seed E P w))")
    case (Inl e)
    then show ?thesis unfolding generate_simplex_noise_texture_def w1_def by simp
  next
    case (Inr img)
    from ok [OF this] show ?thesis by blast
  qed
  with f ok show ?thesis unfolding w1_def by blast
qed

theorem bare_filename_not_written_witness:
  "sep \<notin> set ''n.png''
   \<and> mkdir toy_env [] (fs toy_world) = Inl FileNotFoundError
   \<and> \<not> path_isdir toy_env [] (fs toy_world)
   \<and> generate_simplex_noise_texture toy_env (small_params\<lparr>output_path := ''n.png''\<rparr>) toy_world
       = (Inl FileNotFoundError, toy_world)"
proof -
  have a: "sep \<notin> set (output_path (small_params\<lparr>output_path := ''n.png''\<rparr>))"
    by (simp add: sep_def)
  have b: "mkdir toy_env [] (fs toy_world) = Inl FileNotFoundError"
    by (simp add: toy_env_def toy_mkdir_def)
  have c: "\<not> path_isdir toy_env [] (fs toy_world)"
    by (simp add: toy_env_def toy_isdir_def toy_world_def)
  have d: "draw_seed toy_env (small_params\<lparr>output_path := ''n.png''\<rparr>) toy_world = (0, toy_world)"
    by (simp add: draw_seed_def small_params_def)
  have e: "compute_image toy_env (small_params\<lparr>output_path := ''n.png''\<rparr>) 0
     = Inr \<lparr>img_size = (2, 2), img_pixels = [[0, 127], [127, 255]]\<rparr>"
    by code_simp
  from bare_filename_not_written [OF a b c] e a b c show ?thesis
    unfolding d by simp
qed

subsection \<open>The default seed\<close>

text \<open>
  Claim C10. When the seed is unset and the random source honours the contract of
  \<open>randint(0, 100)\<close> (a result of at least 0 and below 100), the seed in use is one of
  the integers 0 to 99, so over all states of the random source at most 100 different
  results of the image computation occur for fixed remaining parameters.
\<close>

theorem default_seed_range:
  assumes "seed P = None"
    and "\<forall>r. 0 \<le> fst (randint E 0 100 r) \<and> fst (randint E 0 100 r) < 100"
  shows "fst (draw_seed E P w) \<in> {0..99}
       \<and> finite (range (\<lambda>w. compute_image E P (fst (draw_seed E P w))))
       \<and> card (range (\<lambda>w. compute_image E P (fst (draw_seed E P w)))) \<le> 100"
proof -
  have s: "fst (draw_seed E P w) \<in> {0..99}" for w
  proof -
    from assms(2) have "0 \<le> fst (randint E 0 100 (rng w)) \<and> fst (randint E 0 100 (rng w)) < 100"
      by blast
    then show ?thesis unfolding draw_seed_unset [OF assms(1)] by simp
  qed
  have sub: "range (\<lambda>w. compute_image E P (fst (draw_seed E P w))) \<subseteq> compute_image E P ` {0..99}"
    using s by blast
  have fin: "finite (compute_image E P ` {0..99})" by simp
  have "card (compute_image E P ` {0..99}) \<le> card {0..99::int}" by (rule card_image_le) simp
  also have "\<dots> = 100" by simp
  finally have c: "card (compute_image E P ` {0..99}) \<le> 100" .
  have "card (range (\<lambda>w. compute_image E P (fst (draw_seed E P w)))) \<le> card (compute_image E P ` {0..99})"
    by (rule card_mono [OF fin sub])
  with c have "card (range (\<lambda>w. compute_image E P (fst (draw_seed E P w)))) \<le> 100" by simp
  moreover have "finite (range (\<lambda>w. compute_image E P (fst (draw_seed E P w))))"
    by (rule finite_subset [OF sub fin])
  ultimately show ?thesis using s by simp
qed

theorem default_seed_range_witness:
  "seed (small_params\<lparr>seed := None\<rparr>) = None
   \<and> (\<forall>r. 0 \<le> fst (randint toy_env 0 100 r) \<and> fst (randint toy_env 0 100 r) < 100)
   \<and> fst (draw_seed toy_env (small_params\<lparr>seed := None\<rparr>) (toy_world\<lparr>rng := 123\<rparr>)) = 23
   \<and> card (range (\<lambda>w. compute_image toy_env (small_params\<lparr>seed := None\<rparr>)
         (fst (draw_seed toy_env (small_params\<lparr>seed := None\<rparr>) w)))) \<le> 100"
proof -
  have a: "seed (small_params\<lparr>seed := None\<rparr>) = None" by simp
  have b: "\<forall>r. 0 \<le> fst (randint toy_env 0 100 r) \<and> fst (randint toy_env 0 100 r) < 100"
    by (simp add: toy_env_def toy_randint_def)
  have c: "fst (draw_seed toy_env (small_params\<lparr>seed := None\<rparr>) (toy_world\<lparr>rng := 123\<rparr>)) = 23"
    by (simp add: draw_seed_def toy_env_def toy_randint_def)
  from default_seed_range [OF a b] a b c show ?thesis by blast
qed

subsection \<open>Tiling\<close>

text \<open>
  Claim C6 at concrete inputs. The test primitive is periodic in both wrap parameters.
  With the default parameters the row one past the grid, row 256, is sampled at
  \<open>x = 256 / 50\<close>, which is not a multiple of the wrap \<open>repeatx = 256\<close>, and differs
  from row 0. With \<open>width = 4\<close>, \<open>height = 2\<close> and \<open>scale = 1\<close> the row coordinate is
  wrapped by \<open>repeatx = width\<close>, so row 2 differs from row 0.
\<close>

theorem tiling_not_achieved:
  "periodic_x (pnoise2 toy_env) \<and> periodic_y (pnoise2 toy_env)
   \<and> sample toy_env default_params 0 0 0 = Inr 0
   \<and> sample toy_env default_params 0 (height default_params) 0 = Inr 5
   \<and> sample toy_env wide_params 0 0 0 = Inr 0
   \<and> sample toy_env wide_params 0 (height wide_params) 0 = Inr 2"
proof -
  have p: "pnoise2 toy_env = lattice_noise" by (simp add: toy_env_def)
  have a: "sample toy_env default_params 0 0 0 = Inr 0"
    by (simp add: sample_def py_truediv_def default_params_def p lattice_noise_def)
  have b: "sample toy_env default_params 0 (height default_params) 0 = Inr 5"
    by (simp add: sample_def py_truediv_def default_params_def p lattice_noise_def)
  have c: "sample toy_env wide_params 0 0 0 = Inr 0"
    by (simp add: sample_def py_truediv_def wide_params_def p lattice_noise_def)
  have d: "sample toy_env wide_params 0 (height wide_params) 0 = Inr 2"
    by (simp add: sample_def py_truediv_def wide_params_def p lattice_noise_def)
  show ?thesis
    unfolding a b c d unfolding p
    using periodic_x_lattice_noise periodic_y_lattice_noise by simp
qed

end
